theory Spec2Isabelle
  imports Main
begin

section \<open>The request core of the Veloce panel client (veloce/client.py)\<close>

text \<open>
  The client issues one logical HTTP request with bounded retries, maps status codes to
  a typed error taxonomy and manages one lazily created session. The network, the
  clock and the session factory are the environment: they are a record that every
  operation takes and returns. Exceptions are values; the loop of \<open>_request\<close> is a
  recursive function over the attempt counter. Log calls are left out (diagnostic
  only), and so are the lazily built resource wrappers, which no operation of the core
  reads. Task cancellation and interpreter exits are not \<open>Exception\<close>s and are outside
  the model.

  Names are those of the source without the leading underscores: \<open>init\<close> is
  \<open>__init__\<close>, \<open>ensure_session\<close> is \<open>_ensure_session\<close>, \<open>get_headers\<close> is
  \<open>_get_headers\<close>, \<open>request\<close> is \<open>_request\<close>. The body of \<open>_request\<close> is cut
  into its parts: \<open>build_request\<close> (the URL, the headers and the arguments of
  \<open>session.request\<close>), \<open>try_body\<close> (the \<open>try\<close> block: send, decode, \<open>classify\<close> by
  status), \<open>handlers\<close> (the \<open>except\<close> clauses), \<open>request_loop\<close> (the \<open>for\<close> loop)
  and \<open>fallback\<close> (the code after the loop).
\<close>

subsection \<open>Decoded JSON values\<close>

text \<open>
  What \<open>resp.json()\<close> can hand back: any JSON document, not only an object. A decoded
  object is the list of its items (keys distinct, as in a Python dict). A JSON number
  decodes to a Python \<open>int\<close> or to a \<open>float\<close>; the code never computes with a
  number, so a float is kept as the text Python prints for it.
\<close>

datatype json =
    JNull
  | JBool bool
  | JNum int
  | JFloat string
  | JStr string
  | JArr "json list"
  | JObj "(string \<times> json) list"

definition digit_char :: "nat \<Rightarrow> char" where
  \<comment> \<open>The decimal digit of a number below ten.\<close>
  "digit_char n = ''0123456789'' ! (n mod 10)"

function str_nat :: "nat \<Rightarrow> string" where
  "str_nat n = (if n < 10 then [digit_char n] else str_nat (n div 10) @ [digit_char (n mod 10)])"
  by pat_completeness auto
termination
  by (relation "measure id") auto

declare str_nat.simps [simp del]

definition str_int :: "int \<Rightarrow> string" where
  \<comment> \<open>Python's \<open>str\<close> of an int, as an f-string renders it.\<close>
  "str_int i = (if i < 0 then CHR ''-'' # str_nat (nat (- i)) else str_nat (nat i))"

definition quoted :: "string \<Rightarrow> string" where
  "quoted s = CHR 0x27 # s @ [CHR 0x27]"

fun join_comma :: "string list \<Rightarrow> string" where
  "join_comma [] = []"
| "join_comma [s] = s"
| "join_comma (s # t # ss) = s @ '', '' @ join_comma (t # ss)"

fun py_repr :: "json \<Rightarrow> string" where
  "py_repr JNull = ''None''"
| "py_repr (JBool b) = (if b then ''True'' else ''False'')"
| "py_repr (JNum i) = str_int i"
| "py_repr (JFloat t) = t"
| "py_repr (JStr s) = quoted s"
| "py_repr (JArr xs) = ''['' @ join_comma (map py_repr xs) @ '']''"
| "py_repr (JObj kvs) =
     ''{'' @ join_comma (map (\<lambda>kv. quoted (fst kv) @ '': '' @ py_repr (snd kv)) kvs) @ ''}''"

definition py_str :: "json \<Rightarrow> string" where
  \<comment> \<open>Python's \<open>str\<close>: a string is itself, anything else prints as its \<open>repr\<close>
     (strings inside containers are quoted without escape processing).\<close>
  "py_str j = (case j of JStr s \<Rightarrow> s | _ \<Rightarrow> py_repr j)"

definition py_type_name :: "json \<Rightarrow> string" where
  "py_type_name j =
     (case j of JNull \<Rightarrow> ''NoneType'' | JBool _ \<Rightarrow> ''bool'' | JNum _ \<Rightarrow> ''int''
      | JFloat _ \<Rightarrow> ''float''
      | JStr _ \<Rightarrow> ''str'' | JArr _ \<Rightarrow> ''list'' | JObj _ \<Rightarrow> ''dict'')"

subsection \<open>Exceptions\<close>

text \<open>
  Modelled from the spec: the module \<open>veloce/exceptions.py\<close> is not among the sources.
  Section 7 of the specification gives the taxonomy: the generic API error is the base
  kind, the five typed errors are its variants, and each error carries a message, an
  optional status code and the decoded response body. An error prints as its message.
\<close>

datatype error_kind =
  APIError | AuthError | NotFoundError | ValidationError | ConflictError | ServerError

datatype veloce_error =
  VeloceError (kind: error_kind) (message: json) (status_code: "int option")
    (response: "json option")

text \<open>
  What can be raised inside \<open>_request\<close>: an error of the taxonomy, a transport fault
  (\<open>aiohttp.ClientError\<close> or \<open>asyncio.TimeoutError\<close>, with its text), or any other
  \<open>Exception\<close> (with its text).
\<close>

datatype exn =
    Veloce veloce_error
  | ClientError string
  | PyException string

definition str_exn :: "exn \<Rightarrow> string" where
  "str_exn e =
     (case e of Veloce v \<Rightarrow> py_str (message v) | ClientError m \<Rightarrow> m | PyException m \<Rightarrow> m)"

definition attribute_error :: "json \<Rightarrow> string \<Rightarrow> exn" where
  \<comment> \<open>\<open>AttributeError\<close>: the object has no such attribute.\<close>
  "attribute_error obj attr =
     PyException (quoted (py_type_name obj) @ '' object has no attribute '' @ quoted attr)"

definition py_get :: "json \<Rightarrow> string \<Rightarrow> json \<Rightarrow> exn + json" where
  \<comment> \<open>\<open>obj.get(key, default)\<close>: only a dict has it.\<close>
  "py_get obj key dflt =
     (case obj of
        JObj kvs \<Rightarrow> Inr (case map_of kvs key of Some v \<Rightarrow> v | None \<Rightarrow> dflt)
      | _ \<Rightarrow> Inl (attribute_error obj ''get''))"

subsection \<open>Sessions, requests and the environment\<close>

record client_session =
  sid :: nat
  session_timeout :: int
  closed :: bool

text \<open>
  A request as handed to \<open>session.request\<close>; \<open>verb\<close> is the HTTP method.
\<close>

record http_request =
  verb :: string
  url :: string
  json_data :: "json option"
  params :: "(string \<times> json) list option"
  headers :: "(string \<times> string) list"

text \<open>
  The outcome of decoding a response body: a JSON value, a content-type mismatch, or
  any other failure of \<open>resp.json()\<close>, with its text. The last covers a malformed
  body and also a connection or timeout fault raised while the body is read: the inner
  handler catches every \<open>Exception\<close>.
\<close>

datatype decode = Decoded json | ContentTypeError | DecodeFault string

text \<open>
  The outcome of one \<open>session.request\<close>: a response (status, body decoding), a
  transport fault raised before a response is there, or another exception.
\<close>

datatype outcome =
    Response int decode
  | ClientFault string
  | OtherFault string

text \<open>
  The environment: \<open>respond k r\<close> is what the network answers to the \<open>k\<close>-th request put
  on the wire when that request is \<open>r\<close>; \<open>sent\<close> is the log of requests (with the
  session that carried each), \<open>slept\<close> the log of backoff delays, \<open>created\<close> the number
  of sessions constructed so far, \<open>closings\<close> the log of sessions shut down.
\<close>

record world =
  respond :: "nat \<Rightarrow> http_request \<Rightarrow> outcome"
  sent :: "(nat \<times> http_request) list"
  slept :: "int list"
  created :: nat
  closings :: "nat list"

record client =
  base_url :: string
  api_key :: string
  timeout :: int
  max_retries :: int
  session :: "client_session option"
  owns_session :: bool

definition rstrip :: "char \<Rightarrow> string \<Rightarrow> string" where
  "rstrip ch s = rev (dropWhile (\<lambda>x. x = ch) (rev s))"

definition init :: "string \<Rightarrow> string \<Rightarrow> int \<Rightarrow> int \<Rightarrow> client" where
  "init burl key tmo retries =
     \<lparr> base_url = rstrip CHR ''/'' burl, api_key = key, timeout = tmo,
       max_retries = retries, session = None, owns_session = True \<rparr>"

definition new_session :: "int \<Rightarrow> world \<Rightarrow> client_session \<times> world" where
  \<comment> \<open>\<open>aiohttp.ClientSession(timeout=...)\<close>: a new open session.\<close>
  "new_session tmo w =
     (\<lparr> sid = created w, session_timeout = tmo, closed = False \<rparr>,
      w\<lparr> created := Suc (created w) \<rparr>)"

definition ensure_session :: "client \<Rightarrow> world \<Rightarrow> client_session \<times> client \<times> world" where
  "ensure_session c w =
     (case session c of
        None \<Rightarrow>
          (let (s, w') = new_session (timeout c) w
           in (s, c\<lparr> session := Some s, owns_session := True \<rparr>, w'))
      | Some s0 \<Rightarrow>
          if closed s0 then
            (let (s, w') = new_session (timeout c) w
             in (s, c\<lparr> session := Some s, owns_session := True \<rparr>, w'))
          else (s0, c, w))"

definition close :: "client \<Rightarrow> world \<Rightarrow> client \<times> world" where
  "close c w =
     (case session c of
        None \<Rightarrow> (c, w)
      | Some s \<Rightarrow>
          if \<not> closed s \<and> owns_session c
          then (c\<lparr> session := None \<rparr>, w\<lparr> closings := closings w @ [sid s] \<rparr>)
          else (c, w))"

definition get_headers :: "client \<Rightarrow> (string \<times> string) list" where
  "get_headers c = [(''X-API-Key'', api_key c), (''Content-Type'', ''application/json'')]"

definition session_request :: "client_session \<Rightarrow> http_request \<Rightarrow> world \<Rightarrow> outcome \<times> world" where
  \<comment> \<open>\<open>session.request(...)\<close>: a closed session refuses; an open one puts the request
     on the wire.\<close>
  "session_request s r w =
     (if closed s then (OtherFault ''Session is closed'', w)
      else (respond w (length (sent w)) r, w\<lparr> sent := sent w @ [(sid s, r)] \<rparr>))"

definition sleep :: "int \<Rightarrow> world \<Rightarrow> world" where
  "sleep d w = w\<lparr> slept := slept w @ [d] \<rparr>"

subsection \<open>One attempt\<close>

text \<open>
  How one pass through the loop body ends: \<open>return\<close>, an exception leaving the
  function, or \<open>continue\<close> with the exception that was stored in \<open>last_exception\<close>.
\<close>

datatype step =
    Return "int \<times> json"
  | Raise exn
  | Continue exn

definition backoff :: "nat \<Rightarrow> int" where
  "backoff attempt = min (2 ^ attempt) 60"

definition decoded_body :: "decode \<Rightarrow> json" where
  \<comment> \<open>The inner \<open>try\<close> around \<open>resp.json()\<close>: both handlers give the empty dict.\<close>
  "decoded_body d =
     (case d of Decoded j \<Rightarrow> j | ContentTypeError \<Rightarrow> JObj [] | DecodeFault _ \<Rightarrow> JObj [])"

definition classify :: "int \<Rightarrow> nat \<Rightarrow> int \<Rightarrow> json \<Rightarrow> world \<Rightarrow> step \<times> world" where
  \<comment> \<open>The \<open>if\<close>/\<open>elif\<close> chain on \<open>resp.status\<close>; here \<open>Raise\<close> is an exception raised
     inside the \<open>try\<close> block, still to pass the handlers.\<close>
  "classify retries attempt status response_data w =
     (if status = 401 then
        (Raise (Veloce (VeloceError AuthError (JStr ''Authentication failed. Check API key.'')
                  (Some 401) (Some response_data))), w)
      else if status = 403 then
        (Raise (Veloce (VeloceError AuthError (JStr ''Permission denied'')
                  (Some 403) (Some response_data))), w)
      else if status = 404 then
        (Raise (Veloce (VeloceError NotFoundError (JStr ''Resource not found'')
                  (Some 404) (Some response_data))), w)
      else if status = 409 then
        (Raise (Veloce (VeloceError ConflictError (JStr ''Resource already exists'')
                  (Some 409) (Some response_data))), w)
      else if status = 400 \<or> status = 422 then
        (case py_get response_data ''detail'' (JStr ''Validation error'') of
           Inl e \<Rightarrow> (Raise e, w)
         | Inr detail \<Rightarrow>
             (Raise (Veloce (VeloceError ValidationError detail
                       (Some status) (Some response_data))), w))
      else if status \<ge> 500 then
        (let error = Veloce (VeloceError ServerError (JStr ''Server error'')
                       (Some status) (Some response_data))
         in if int attempt < retries - 1
            then (Continue error, sleep (backoff attempt) w)
            else (Raise error, w))
      else (Return (status, response_data), w))"

definition try_body ::
  "client_session \<Rightarrow> http_request \<Rightarrow> int \<Rightarrow> nat \<Rightarrow> world \<Rightarrow> step \<times> world" where
  "try_body s r retries attempt w =
     (case session_request s r w of
        (Response status d, w') \<Rightarrow> classify retries attempt status (decoded_body d) w'
      | (ClientFault m, w') \<Rightarrow> (Raise (ClientError m), w')
      | (OtherFault m, w') \<Rightarrow> (Raise (PyException m), w'))"

definition api_error :: "string \<Rightarrow> exn" where
  \<comment> \<open>\<open>VeloceAPIError(message)\<close>: no status code, no response.\<close>
  "api_error m = Veloce (VeloceError APIError (JStr m) None None)"

definition handlers :: "int \<Rightarrow> nat \<Rightarrow> exn \<Rightarrow> world \<Rightarrow> step \<times> world" where
  \<comment> \<open>The \<open>except\<close> clauses of the outer \<open>try\<close>, in the order of the source.\<close>
  "handlers retries attempt e w =
     (case e of
        Veloce v \<Rightarrow>
          if kind v \<in> {AuthError, NotFoundError, ConflictError, ValidationError} then (Raise e, w)
          else if kind v = ServerError then (Raise e, w)
          else (Raise (api_error (''Request failed: '' @ str_exn e)), w)
      | ClientError m \<Rightarrow>
          if int attempt < retries - 1
          then (Continue e, sleep (backoff attempt) w)
          else (Raise (api_error (''HTTP request failed: '' @ str_exn e)), w)
      | PyException m \<Rightarrow> (Raise (api_error (''Request failed: '' @ str_exn e)), w))"

definition attempt_once ::
  "client_session \<Rightarrow> http_request \<Rightarrow> int \<Rightarrow> nat \<Rightarrow> world \<Rightarrow> step \<times> world" where
  \<comment> \<open>One pass through the loop body: the \<open>try\<close> block, then the handlers for
     what it raised.\<close>
  "attempt_once s r retries attempt w =
     (case try_body s r retries attempt w of
        (Raise e, w') \<Rightarrow> handlers retries attempt e w'
      | other \<Rightarrow> other)"

subsection \<open>The retry loop and the request\<close>

text \<open>
  How the \<open>for\<close> loop ends: in its body (\<open>return\<close> or \<open>raise\<close>), or by running out of
  attempts with the last stored exception.
\<close>

datatype loop_exit =
    Returned "int \<times> json"
  | Raised exn
  | Exhausted "exn option"

function request_loop ::
  "client_session \<Rightarrow> http_request \<Rightarrow> int \<Rightarrow> nat \<Rightarrow> exn option \<Rightarrow> world \<Rightarrow> loop_exit \<times> world"
where
  \<comment> \<open>\<open>for attempt in range(retries)\<close>, from the given value of \<open>attempt\<close> on.\<close>
  "request_loop s r retries attempt last_exception w =
     (if int attempt < retries then
        (case attempt_once s r retries attempt w of
           (Return res, w') \<Rightarrow> (Returned res, w')
         | (Raise e, w') \<Rightarrow> (Raised e, w')
         | (Continue e, w') \<Rightarrow> request_loop s r retries (Suc attempt) (Some e) w')
      else (Exhausted last_exception, w))"
  by pat_completeness auto
termination
  by (relation "measure (\<lambda>(s, r, retries, attempt, last_exception, w). nat (retries - int attempt))")
    auto

declare request_loop.simps [simp del]

definition fallback :: "int \<Rightarrow> exn option \<Rightarrow> exn" where
  \<comment> \<open>The code after the loop.\<close>
  "fallback retries last_exception =
     (case last_exception of
        Some e \<Rightarrow>
          api_error (''Request failed after '' @ str_int retries @ '' attempts: '' @ str_exn e)
      | None \<Rightarrow> api_error (''Request failed after '' @ str_int retries @ '' attempts''))"

definition build_request ::
  "client \<Rightarrow> string \<Rightarrow> string \<Rightarrow> json option \<Rightarrow> (string \<times> json) list option \<Rightarrow> http_request"
where
  "build_request c meth endpoint body query =
     \<lparr> verb = meth, url = base_url c @ endpoint, json_data = body, params = query,
       headers = get_headers c \<rparr>"

definition retry_loop ::
  "client \<Rightarrow> world \<Rightarrow> string \<Rightarrow> string \<Rightarrow> json option \<Rightarrow> (string \<times> json) list option \<Rightarrow> bool
     \<Rightarrow> loop_exit \<times> client \<times> world"
where
  \<comment> \<open>\<open>_request\<close> up to the end of its \<open>for\<close> loop.\<close>
  "retry_loop c w meth endpoint body query retry =
     (let r = build_request c meth endpoint body query;
          (s, c', w') = ensure_session c w;
          retries = (if retry then max_retries c else 1);
          (ex, w'') = request_loop s r retries 0 None w'
      in (ex, c', w''))"

definition request ::
  "client \<Rightarrow> world \<Rightarrow> string \<Rightarrow> string \<Rightarrow> json option \<Rightarrow> (string \<times> json) list option \<Rightarrow> bool
     \<Rightarrow> (exn + int \<times> json) \<times> client \<times> world"
where
  "request c w meth endpoint body query retry =
     (case retry_loop c w meth endpoint body query retry of
        (Returned res, c', w') \<Rightarrow> (Inr res, c', w')
      | (Raised e, c', w') \<Rightarrow> (Inl e, c', w')
      | (Exhausted last_exception, c', w') \<Rightarrow>
          (Inl (fallback (if retry then max_retries c else 1) last_exception), c', w'))"

subsection \<open>Health check\<close>



subsection \<open>What a run did, and kinds of outcome\<close>

definition attempts_made :: "world \<Rightarrow> world \<Rightarrow> (nat \<times> http_request) list" where
  \<comment> \<open>The requests put on the wire between two states of the environment.\<close>
  "attempts_made w w' = drop (length (sent w)) (sent w')"

definition sleeps_made :: "world \<Rightarrow> world \<Rightarrow> int list" where
  "sleeps_made w w' = drop (length (slept w)) (slept w')"

definition server_failure :: "outcome \<Rightarrow> bool" where
  "server_failure out = (case out of Response st d \<Rightarrow> 500 \<le> st | _ \<Rightarrow> False)"

definition transient :: "outcome \<Rightarrow> bool" where
  \<comment> \<open>A status of 500 or more, or a transport fault out of \<open>session.request\<close>.\<close>
  "transient out =
     (case out of Response st d \<Rightarrow> 500 \<le> st | ClientFault m \<Rightarrow> True | OtherFault m \<Rightarrow> False)"

definition final_error :: "outcome \<Rightarrow> exn" where
  \<comment> \<open>What the last attempt raises on a transient outcome.\<close>
  "final_error out =
     (case out of
        Response st d \<Rightarrow>
          Veloce (VeloceError ServerError (JStr ''Server error'') (Some st) (Some (decoded_body d)))
      | ClientFault m \<Rightarrow> api_error (''HTTP request failed: '' @ m)
      | OtherFault m \<Rightarrow> api_error (''Request failed: '' @ m))"

definition stored_error :: "outcome \<Rightarrow> exn" where
  \<comment> \<open>What an earlier attempt keeps in \<open>last_exception\<close> on a transient outcome.\<close>
  "stored_error out =
     (case out of
        Response st d \<Rightarrow>
          Veloce (VeloceError ServerError (JStr ''Server error'') (Some st) (Some (decoded_body d)))
      | ClientFault m \<Rightarrow> ClientError m
      | OtherFault m \<Rightarrow> PyException m)"

definition on_wire :: "client_session \<Rightarrow> http_request \<Rightarrow> world \<Rightarrow> world" where
  "on_wire s r w = w\<lparr> sent := sent w @ [(sid s, r)] \<rparr>"

definition normalise :: "outcome \<Rightarrow> outcome" where
  \<comment> \<open>The same outcome with a body that failed to decode replaced by a decoded \<open>{}\<close>.\<close>
  "normalise out =
     (case out of Response st d \<Rightarrow> Response st (Decoded (decoded_body d)) | other \<Rightarrow> other)"

definition normalised :: "world \<Rightarrow> world" where
  "normalised w = w\<lparr> respond := (\<lambda>k r. normalise (respond w k r)) \<rparr>"


definition close_twice :: "client \<Rightarrow> world \<Rightarrow> client \<times> world" where
  \<comment> \<open>Two calls of \<open>close()\<close> in succession.\<close>
  "close_twice c w = (case close c w of (c1, w1) \<Rightarrow> close c1 w1)"

subsection \<open>Concrete clients and networks\<close>

definition always :: "outcome \<Rightarrow> nat \<Rightarrow> http_request \<Rightarrow> outcome" where
  \<comment> \<open>A network that gives the same answer to every request.\<close>
  "always out k r = out"

definition quiet :: "(nat \<Rightarrow> http_request \<Rightarrow> outcome) \<Rightarrow> world" where
  \<comment> \<open>An environment in which nothing has happened yet.\<close>
  "quiet f = \<lparr> respond = f, sent = [], slept = [], created = 0, closings = [] \<rparr>"

definition panel :: client where
  "panel = init ''https://panel.example/api/'' ''secret'' 30 3"

definition panel_no_budget :: client where
  "panel_no_budget = init ''https://panel.example/api/'' ''secret'' 30 0"

definition admin_probe :: http_request where
  "admin_probe =
     \<lparr> verb = ''GET'', url = ''https://panel.example/api/admin'', json_data = None,
       params = None,
       headers = [(''X-API-Key'', ''secret''), (''Content-Type'', ''application/json'')] \<rparr>"

definition open_session :: client_session where
  "open_session = \<lparr> sid = 0, session_timeout = 30, closed = False \<rparr>"

definition panel_in_use :: client where
  \<comment> \<open>The client after a first request: it holds the open session it made.\<close>
  "panel_in_use = panel\<lparr> session := Some open_session \<rparr>"

definition after_one_session :: "(nat \<Rightarrow> http_request \<Rightarrow> outcome) \<Rightarrow> world" where
  \<comment> \<open>An environment in which one session has been made so far.\<close>
  "after_one_session f = (quiet f)\<lparr> created := 1 \<rparr>"

section \<open>Properties\<close>

subsection \<open>One attempt\<close>

lemmas attempt_defs =
  attempt_once_def try_body_def session_request_def classify_def handlers_def sleep_def
  on_wire_def

lemma attempt_once_frame:
  "\<not> closed s \<Longrightarrow> attempt_once s r R a w = (x, w') \<Longrightarrow>
     respond w' = respond w \<and> sent w' = sent w @ [(sid s, r)] \<and> created w' = created w
       \<and> closings w' = closings w"
  by (auto simp: attempt_defs Let_def
      split: outcome.splits step.splits exn.splits sum.splits if_splits prod.splits)

lemma attempt_once_Continue:
  "attempt_once s r R a w = (Continue e, w') \<Longrightarrow>
     int a < R - 1 \<and> slept w' = slept w @ [backoff a]"
  by (auto simp: attempt_defs Let_def
      split: outcome.splits step.splits exn.splits sum.splits if_splits prod.splits)

lemma attempt_once_no_sleep:
  "attempt_once s r R a w = (x, w') \<Longrightarrow> \<forall>e. x \<noteq> Continue e \<Longrightarrow> slept w' = slept w"
  by (auto simp: attempt_defs Let_def
      split: outcome.splits step.splits exn.splits sum.splits if_splits prod.splits)

lemma attempt_once_transient:
  "\<not> closed s \<Longrightarrow> transient (respond w (length (sent w)) r) \<Longrightarrow>
   attempt_once s r R a w =
     (if int a < R - 1
      then (Continue (stored_error (respond w (length (sent w)) r)),
            sleep (backoff a) (on_wire s r w))
      else (Raise (final_error (respond w (length (sent w)) r)), on_wire s r w))"
  by (auto simp: attempt_defs transient_def final_error_def stored_error_def str_exn_def Let_def
      split: outcome.splits)


subsection \<open>The loop\<close>

lemma loop_not_exhausted:
  "int a < R \<Longrightarrow> request_loop s r R a l w = (x, w') \<Longrightarrow> x \<noteq> Exhausted l'"
proof (induction s r R a l w rule: request_loop.induct)
  case (1 s r retries attempt last_exception w)
  obtain st w1 where step: "attempt_once s r retries attempt w = (st, w1)"
    by (cases "attempt_once s r retries attempt w")
  show ?case
  proof (cases st)
    case (Continue e)
    with step have "int (Suc attempt) < retries"
      using attempt_once_Continue by fastforce
    moreover have "request_loop s r retries (Suc attempt) (Some e) w1 = (x, w')"
      using "1.prems" step Continue by (simp add: request_loop.simps [of s r retries attempt])
    ultimately show ?thesis
      using "1.IH" [OF "1.prems"(1) step [symmetric] Continue] by simp
  next
    case (Return res)
    with "1.prems" step show ?thesis
      by (auto simp: request_loop.simps [of s r retries attempt])
  next
    case (Raise e)
    with "1.prems" step show ?thesis
      by (auto simp: request_loop.simps [of s r retries attempt])
  qed
qed

lemma loop_frame:
  "\<not> closed s \<Longrightarrow> request_loop s r R a l w = (x, w') \<Longrightarrow>
     (\<exists>k. sent w' = sent w @ replicate k (sid s, r)) \<and> respond w' = respond w
       \<and> created w' = created w \<and> closings w' = closings w"
proof (induction s r R a l w rule: request_loop.induct)
  case (1 s r retries attempt last_exception w)
  show ?case
  proof (cases "int attempt < retries")
    case False
    with "1.prems" show ?thesis
      by (auto simp: request_loop.simps [of s r retries attempt] intro: exI [of _ 0])
  next
    case True
    obtain st w1 where step: "attempt_once s r retries attempt w = (st, w1)"
      by (cases "attempt_once s r retries attempt w")
    note fr = attempt_once_frame [OF "1.prems"(1) step]
    show ?thesis
    proof (cases st)
      case (Continue e)
      have "request_loop s r retries (Suc attempt) (Some e) w1 = (x, w')"
        using "1.prems" step Continue True
        by (simp add: request_loop.simps [of s r retries attempt])
      from "1.IH" [OF True step [symmetric] Continue "1.prems"(1) this]
      obtain k where "sent w' = sent w1 @ replicate k (sid s, r)"
        and rest: "respond w' = respond w1" "created w' = created w1"
          "closings w' = closings w1"
        by blast
      with fr have "sent w' = sent w @ replicate (Suc k) (sid s, r)" by simp
      with rest fr show ?thesis by metis
    next
      case (Return res)
      with "1.prems" step True have "w' = w1"
        by (simp add: request_loop.simps [of s r retries attempt])
      with fr show ?thesis by (auto intro: exI [of _ 1])
    next
      case (Raise e)
      with "1.prems" step True have "w' = w1"
        by (simp add: request_loop.simps [of s r retries attempt])
      with fr show ?thesis by (auto intro: exI [of _ 1])
    qed
  qed
qed

lemma loop_transient:
  "\<not> closed s \<Longrightarrow> \<forall>k. transient (respond w k r) \<Longrightarrow> int a < R \<Longrightarrow>
   request_loop s r R a l w = (x, w') \<Longrightarrow>
     sent w' = sent w @ replicate (nat R - a) (sid s, r)
     \<and> slept w' = slept w @ map backoff [a..<nat R - 1]
     \<and> x = Raised (final_error (respond w (length (sent w) + (nat R - a - 1)) r))
     \<and> respond w' = respond w \<and> created w' = created w \<and> closings w' = closings w"
proof (induction s r R a l w rule: request_loop.induct)
  case (1 s r retries attempt last_exception w)
  let ?out = "respond w (length (sent w)) r"
  have tr: "transient ?out" using "1.prems"(2) by simp
  note step = attempt_once_transient [OF "1.prems"(1) tr, of retries attempt]
  show ?case
  proof (cases "int attempt < retries - 1")
    case False
    with "1.prems"(3) have eq: "nat retries - attempt = 1" "[attempt..<nat retries - 1] = []"
      by auto
    from False step "1.prems"(3,4)
    have "x = Raised (final_error ?out)" "w' = on_wire s r w"
      by (auto simp: request_loop.simps [of s r retries attempt])
    with eq show ?thesis by (simp add: on_wire_def)
  next
    case True
    let ?w1 = "sleep (backoff attempt) (on_wire s r w)"
    have st: "attempt_once s r retries attempt w = (Continue (stored_error ?out), ?w1)"
      using step True by simp
    have rec: "request_loop s r retries (Suc attempt) (Some (stored_error ?out)) ?w1 = (x, w')"
      using "1.prems"(3,4) st by (simp add: request_loop.simps [of s r retries attempt])
    have tr1: "\<forall>k. transient (respond ?w1 k r)"
      using "1.prems"(2) by (simp add: sleep_def on_wire_def)
    have lt: "int (Suc attempt) < retries" using True by simp
    note ih = "1.IH" [OF "1.prems"(3) st [symmetric] refl "1.prems"(1) tr1 lt rec]
    have a1: "replicate (nat retries - attempt) (sid s, r) =
        (sid s, r) # replicate (nat retries - Suc attempt) (sid s, r)"
      using True by (cases "nat retries - attempt") auto
    have a2: "[attempt..<nat retries - 1] = attempt # [Suc attempt..<nat retries - 1]"
      using True by (intro upt_conv_Cons) linarith
    have a3: "length (sent ?w1) + (nat retries - Suc attempt - 1) =
        length (sent w) + (nat retries - attempt - 1)"
      using True by (simp add: sleep_def on_wire_def)
    from ih show ?thesis
      unfolding a3 a1 a2 by (simp add: sleep_def on_wire_def)
  qed
qed


lemma loop_first_success:
  assumes "\<not> closed s" "int a < R" "respond w (length (sent w)) r = Response st d"
    "st < 500" "st \<notin> {401, 403, 404, 409, 400, 422}"
  shows "request_loop s r R a l w = (Returned (st, decoded_body d), on_wire s r w)"
  using assms by (simp add: request_loop.simps [of s r R a] attempt_defs)

text \<open>
  When the decoded body is a mapping (or failed to decode), a response with a status
  below 500 ends the run at the attempt that received it: the typed error of the table
  for 401, 403, 404, 409, 400 and 422, the pair (status, body) for any other status;
  one more request is on the wire and nothing was slept.
\<close>

lemma mapping_body_classification:
  assumes "\<not> closed s" "int a < R" "respond w (length (sent w)) r = Response st d"
    "st < 500" "decoded_body d = JObj kvs"
  shows "request_loop s r R a l w =
    ((if st = 401 then
        Raised (Veloce (VeloceError AuthError (JStr ''Authentication failed. Check API key.'')
                  (Some 401) (Some (JObj kvs))))
      else if st = 403 then
        Raised (Veloce (VeloceError AuthError (JStr ''Permission denied'')
                  (Some 403) (Some (JObj kvs))))
      else if st = 404 then
        Raised (Veloce (VeloceError NotFoundError (JStr ''Resource not found'')
                  (Some 404) (Some (JObj kvs))))
      else if st = 409 then
        Raised (Veloce (VeloceError ConflictError (JStr ''Resource already exists'')
                  (Some 409) (Some (JObj kvs))))
      else if st = 400 \<or> st = 422 then
        Raised (Veloce (VeloceError ValidationError
                  (case map_of kvs ''detail'' of Some v \<Rightarrow> v | None \<Rightarrow> JStr ''Validation error'')
                  (Some st) (Some (JObj kvs))))
      else Returned (st, JObj kvs)),
     on_wire s r w)"
  using assms by (simp add: request_loop.simps [of s r R a] attempt_defs py_get_def)

subsection \<open>Decode failures\<close>

lemma decoded_body_normal [simp]: "decoded_body (Decoded (decoded_body d)) = decoded_body d"
  by (simp add: decoded_body_def)

lemma normalised_simps [simp]:
  "respond (normalised w) k r = normalise (respond w k r)"
  "sent (normalised w) = sent w" "slept (normalised w) = slept w"
  "created (normalised w) = created w" "closings (normalised w) = closings w"
  by (simp_all add: normalised_def)

lemma normalised_update:
  "normalised (w\<lparr> sent := xs \<rparr>) = (normalised w)\<lparr> sent := xs \<rparr>"
  "normalised (w\<lparr> slept := ys \<rparr>) = (normalised w)\<lparr> slept := ys \<rparr>"
  "normalised (w\<lparr> created := n \<rparr>) = (normalised w)\<lparr> created := n \<rparr>"
  by (simp_all add: normalised_def)

lemma attempt_once_normalised:
  "attempt_once s r R a (normalised w) =
     (case attempt_once s r R a w of (x, w') \<Rightarrow> (x, normalised w'))"
  by (cases "respond w (length (sent w)) r")
     (auto simp: attempt_defs normalise_def normalised_update Let_def
       split: step.splits exn.splits sum.splits prod.splits)

lemma loop_normalised:
  "request_loop s r R a l (normalised w) =
     (case request_loop s r R a l w of (x, w') \<Rightarrow> (x, normalised w'))"
proof (induction s r R a l w rule: request_loop.induct)
  case (1 s r retries attempt last_exception w)
  obtain st w1 where step: "attempt_once s r retries attempt w = (st, w1)"
    by (cases "attempt_once s r retries attempt w")
  then have nstep: "attempt_once s r retries attempt (normalised w) = (st, normalised w1)"
    by (simp add: attempt_once_normalised)
  show ?case
  proof (cases "int attempt < retries")
    case False
    then show ?thesis
      by (simp add: request_loop.simps [of s r retries attempt])
  next
    case True
    show ?thesis
    proof (cases st)
      case (Continue e)
      from "1.IH" [OF True step [symmetric] Continue] True step nstep Continue
      show ?thesis by (simp add: request_loop.simps [of s r retries attempt])
    next
      case (Return res)
      with True step nstep show ?thesis
        by (simp add: request_loop.simps [of s r retries attempt])
    next
      case (Raise e)
      with True step nstep show ?thesis
        by (simp add: request_loop.simps [of s r retries attempt])
    qed
  qed
qed

lemma ensure_session_normalised:
  "ensure_session c (normalised w) =
     (case ensure_session c w of (s, c', w') \<Rightarrow> (s, c', normalised w'))"
  by (auto simp: ensure_session_def new_session_def normalised_update split: option.splits)

lemma request_normalised:
  "request c (normalised w) m e b q retry =
     (case request c w m e b q retry of (res, c', w') \<Rightarrow> (res, c', normalised w'))"
  by (auto simp: request_def retry_loop_def ensure_session_normalised loop_normalised Let_def
      split: prod.splits loop_exit.splits)

subsection \<open>Whole requests\<close>

lemma ensure_session_open:
  "ensure_session c w = (s, c', w') \<Longrightarrow>
     \<not> closed s \<and> session c' = Some s \<and> respond w' = respond w \<and> sent w' = sent w
       \<and> slept w' = slept w \<and> closings w' = closings w"
  by (auto simp: ensure_session_def new_session_def split: option.splits if_splits)

lemma retry_loop_eq:
  "ensure_session c w = (s, c', w1) \<Longrightarrow>
   request_loop s (build_request c m e b q) (if retry then max_retries c else 1) 0 None w1
     = (x, w2) \<Longrightarrow>
   retry_loop c w m e b q retry = (x, c', w2)"
  by (simp add: retry_loop_def)

lemma server_failure_transient: "server_failure out \<Longrightarrow> transient out"
  by (cases out) (simp_all add: server_failure_def transient_def)

lemma backoff_eq: "backoff = (\<lambda>i. min (2 ^ i) 60)"
  by (rule ext) (simp add: backoff_def)

lemma request_transient:
  assumes tr: "\<forall>k. transient (respond w k (build_request c m e b q))"
    and pos: "1 \<le> R" and R: "R = (if retry then max_retries c else 1)"
  shows "\<exists>c' w'. request c w m e b q retry =
            (Inl (final_error (respond w (length (sent w) + (nat R - 1))
                    (build_request c m e b q))), c', w')
          \<and> length (attempts_made w w') = nat R
          \<and> sleeps_made w w' = map backoff [0..<nat R - 1]"
proof -
  let ?r = "build_request c m e b q"
  obtain s c' w1 where es: "ensure_session c w = (s, c', w1)"
    by (cases "ensure_session c w")
  note op = ensure_session_open [OF es]
  obtain x w2 where lp: "request_loop s ?r R 0 None w1 = (x, w2)"
    by (cases "request_loop s ?r R 0 None w1")
  have tr1: "\<forall>k. transient (respond w1 k ?r)" using tr op by simp
  have "int 0 < R" using pos by simp
  from loop_transient [OF _ tr1 this lp] op
  have res: "sent w2 = sent w @ replicate (nat R) (sid s, ?r)"
     "slept w2 = slept w @ map backoff [0..<nat R - 1]"
     "x = Raised (final_error (respond w (length (sent w) + (nat R - 1)) ?r))"
    by simp_all
  have "retry_loop c w m e b q retry = (x, c', w2)"
    using retry_loop_eq [OF es] lp R by simp
  then have "request c w m e b q retry =
     (Inl (final_error (respond w (length (sent w) + (nat R - 1)) ?r)), c', w2)"
    using res(3) by (simp add: request_def)
  moreover have "length (attempts_made w w2) = nat R"
    "sleeps_made w w2 = map backoff [0..<nat R - 1]"
    using res by (simp_all add: attempts_made_def sleeps_made_def)
  ultimately show ?thesis by blast
qed

lemma request_no_budget:
  assumes "retry" "max_retries c \<le> 0"
  shows "\<exists>c' w'. retry_loop c w m e b q retry = (Exhausted None, c', w')
     \<and> request c w m e b q retry = (Inl (fallback (max_retries c) None), c', w')
     \<and> attempts_made w w' = [] \<and> sleeps_made w w' = []"
proof -
  obtain s c' w1 where es: "ensure_session c w = (s, c', w1)"
    by (cases "ensure_session c w")
  note op = ensure_session_open [OF es]
  have "request_loop s (build_request c m e b q) (max_retries c) 0 None w1 = (Exhausted None, w1)"
    using assms by (simp add: request_loop.simps)
  then have rl: "retry_loop c w m e b q retry = (Exhausted None, c', w1)"
    using retry_loop_eq [OF es, of m e b q retry] assms by simp
  then have "request c w m e b q retry = (Inl (fallback (max_retries c) None), c', w1)"
    using assms by (simp add: request_def)
  with rl op show ?thesis by (simp add: attempts_made_def sleeps_made_def)
qed

lemma request_once:
  "\<exists>res c' w'. request c w meth endpoint body query False = (res, c', w')
      \<and> length (attempts_made w w') = 1 \<and> sleeps_made w w' = []"
proof -
  let ?r = "build_request c meth endpoint body query"
  obtain s c' w1 where es: "ensure_session c w = (s, c', w1)"
    by (cases "ensure_session c w")
  note op = ensure_session_open [OF es]
  obtain st w2 where step: "attempt_once s ?r 1 0 w1 = (st, w2)"
    by (cases "attempt_once s ?r 1 0 w1")
  have nc: "\<forall>e. st \<noteq> Continue e"
    using attempt_once_Continue [of s ?r 1 0 w1 _ w2] step by auto
  have fr: "sent w2 = sent w @ [(sid s, ?r)]" "slept w2 = slept w"
    using attempt_once_frame [OF _ step] attempt_once_no_sleep [OF step nc] op by auto
  obtain x where lp: "request_loop s ?r 1 0 None w1 = (x, w2)"
    using step nc by (cases st) (auto simp: request_loop.simps [of s ?r 1 0])
  have "retry_loop c w meth endpoint body query False = (x, c', w2)"
    using retry_loop_eq [OF es, of meth endpoint body query False] lp by simp
  then obtain res where "request c w meth endpoint body query False = (res, c', w2)"
    by (cases x) (auto simp: request_def)
  with fr show ?thesis by (auto simp: attempts_made_def sleeps_made_def)
qed

lemma request_first_success:
  assumes budget: "retry \<longrightarrow> 1 \<le> max_retries c"
    and resp: "respond w (length (sent w)) (build_request c m e b q) = Response st d"
    and st: "st < 500" "st \<notin> {401, 403, 404, 409, 400, 422}"
  shows "\<exists>c' w'. request c w m e b q retry = (Inr (st, decoded_body d), c', w')
     \<and> length (attempts_made w w') = 1 \<and> sleeps_made w w' = []"
proof -
  let ?r = "build_request c m e b q"
  let ?R = "if retry then max_retries c else 1"
  obtain s c' w1 where es: "ensure_session c w = (s, c', w1)"
    by (cases "ensure_session c w")
  note op = ensure_session_open [OF es]
  have lt: "int 0 < ?R" using budget by auto
  have r1: "respond w1 (length (sent w1)) ?r = Response st d" using resp op by simp
  have "request_loop s ?r ?R 0 None w1 = (Returned (st, decoded_body d), on_wire s ?r w1)"
    using loop_first_success [OF _ lt r1 st] op by simp
  from retry_loop_eq [OF es this]
  have "request c w m e b q retry = (Inr (st, decoded_body d), c', on_wire s ?r w1)"
    by (simp add: request_def)
  with op show ?thesis by (simp add: attempts_made_def sleeps_made_def on_wire_def)
qed


section \<open>The claims\<close>

subsection \<open>Server errors and the retry budget\<close>

text \<open>
  Claim C2, as amended. With the retry flag true, a budget \<open>max_retries\<close> of at least 1
  and a network that answers every attempt with a status of 500 or more, \<open>_request\<close>
  makes exactly \<open>max_retries\<close> attempts, sleeps \<open>min(2^i, 60)\<close> after attempt \<open>i\<close> for
  \<open>i\<close> from 0 to \<open>max_retries - 2\<close>, and raises the server error that carries the
  status and the body of the last response. With the retry flag false it makes exactly
  one attempt and never sleeps, whatever the network answers.
\<close>

theorem server_errors_exhaust_retries:
  "(1 \<le> max_retries c
      \<and> (\<forall>k. server_failure (respond w k (build_request c meth endpoint body query)))
    \<longrightarrow>
      (\<exists>c' w' st d.
           request c w meth endpoint body query True =
             (Inl (Veloce (VeloceError ServerError (JStr ''Server error'') (Some st)
                     (Some (decoded_body d)))), c', w')
         \<and> respond w (length (sent w) + (nat (max_retries c) - 1))
              (build_request c meth endpoint body query) = Response st d
         \<and> 500 \<le> st
         \<and> int (length (attempts_made w w')) = max_retries c
         \<and> sleeps_made w w' = map (\<lambda>i. min (2 ^ i) 60) [0..<nat (max_retries c) - 1]))
   \<and> (\<exists>res c' w'.
           request c w meth endpoint body query False = (res, c', w')
         \<and> length (attempts_made w w') = 1 \<and> sleeps_made w w' = [])"
proof (intro conjI impI)
  let ?r = "build_request c meth endpoint body query"
  let ?last = "respond w (length (sent w) + (nat (max_retries c) - 1)) ?r"
  assume a: "1 \<le> max_retries c \<and> (\<forall>k. server_failure (respond w k ?r))"
  then have budget: "1 \<le> max_retries c" and failing: "\<forall>k. server_failure (respond w k ?r)"
    by simp_all
  have tr: "\<forall>k. transient (respond w k ?r)"
    using failing by (simp add: server_failure_transient)
  from request_transient [OF tr, of "max_retries c" True] budget
  obtain c' w' where run:
    "request c w meth endpoint body query True = (Inl (final_error ?last), c', w')"
    "length (attempts_made w w') = nat (max_retries c)"
    "sleeps_made w w' = map backoff [0..<nat (max_retries c) - 1]"
    by auto
  from failing have "server_failure ?last" by blast
  then obtain st d where last: "?last = Response st d" "500 \<le> st"
    by (auto simp: server_failure_def split: outcome.splits)
  show "\<exists>c' w' st d.
           request c w meth endpoint body query True =
             (Inl (Veloce (VeloceError ServerError (JStr ''Server error'') (Some st)
                     (Some (decoded_body d)))), c', w')
         \<and> ?last = Response st d \<and> 500 \<le> st
         \<and> int (length (attempts_made w w')) = max_retries c
         \<and> sleeps_made w w' = map (\<lambda>i. min (2 ^ i) 60) [0..<nat (max_retries c) - 1]"
    using run last budget unfolding backoff_eq by (auto simp: final_error_def)
next
  show "\<exists>res c' w'.
           request c w meth endpoint body query False = (res, c', w')
         \<and> length (attempts_made w w') = 1 \<and> sleeps_made w w' = []"
    using request_once .
qed

theorem server_errors_exhaust_retries_witness:
  "1 \<le> max_retries panel
   \<and> (\<forall>k. server_failure
           (respond (quiet (always (Response 503 (Decoded (JObj []))))) k
              (build_request panel ''GET'' ''/users'' None None)))
   \<and> fst (request panel (quiet (always (Response 503 (Decoded (JObj [])))))
            ''GET'' ''/users'' None None True)
       = Inl (Veloce (VeloceError ServerError (JStr ''Server error'') (Some 503)
                (Some (JObj []))))
   \<and> length (attempts_made (quiet (always (Response 503 (Decoded (JObj [])))))
        (snd (snd (request panel (quiet (always (Response 503 (Decoded (JObj [])))))
                     ''GET'' ''/users'' None None True)))) = 3
   \<and> sleeps_made (quiet (always (Response 503 (Decoded (JObj [])))))
        (snd (snd (request panel (quiet (always (Response 503 (Decoded (JObj [])))))
                     ''GET'' ''/users'' None None True))) = [1, 2]
   \<and> length (attempts_made (quiet (always (Response 503 (Decoded (JObj [])))))
        (snd (snd (request panel (quiet (always (Response 503 (Decoded (JObj [])))))
                     ''GET'' ''/users'' None None False)))) = 1"
proof -
  let ?W = "quiet (always (Response 503 (Decoded (JObj []))))"
  let ?r = "build_request panel ''GET'' ''/users'' None None"
  have b: "1 \<le> max_retries panel" by (simp add: panel_def init_def)
  have f: "\<forall>k. server_failure (respond ?W k ?r)"
    by (simp add: quiet_def always_def server_failure_def)
  note t = server_errors_exhaust_retries [of panel ?W "''GET''" "''/users''" None None]
  from t b f obtain c' w' st d where
    rq: "request panel ?W ''GET'' ''/users'' None None True =
           (Inl (Veloce (VeloceError ServerError (JStr ''Server error'') (Some st)
                   (Some (decoded_body d)))), c', w')"
    and last: "respond ?W (length (sent ?W) + (nat (max_retries panel) - 1)) ?r = Response st d"
    and n: "int (length (attempts_made ?W w')) = max_retries panel"
    and sl: "sleeps_made ?W w' = map (\<lambda>i. min (2 ^ i) 60) [0..<nat (max_retries panel) - 1]"
    by blast
  from t obtain res1 c1 w1 where
    once: "request panel ?W ''GET'' ''/users'' None None False = (res1, c1, w1)"
      "length (attempts_made ?W w1) = 1"
    by blast
  from last have v: "st = 503" "d = Decoded (JObj [])"
    by (simp_all add: quiet_def always_def)
  have m: "max_retries panel = 3" by (simp add: panel_def init_def)
  have u: "map (\<lambda>i. min (2 ^ i) 60) [0..<nat 3 - 1] = [1, 2 :: int]"
    by (simp add: upt_rec)
  from rq n sl once show ?thesis
    using b f unfolding v m u by (simp add: decoded_body_def)
qed

text \<open>
  Claim C2 as stated fails when the budget is 0: no attempt is made, and what is raised
  is the generic error of the code after the loop, not a server error.
\<close>

theorem server_errors_without_budget_counterexample:
  "fst (request panel_no_budget (quiet (always (Response 503 (Decoded (JObj [])))))
          ''GET'' ''/users'' None None True)
     = Inl (Veloce (VeloceError APIError (JStr ''Request failed after 0 attempts'') None None))
   \<and> sent (snd (snd (request panel_no_budget (quiet (always (Response 503 (Decoded (JObj [])))))
                       ''GET'' ''/users'' None None True))) = []"
  by code_simp

subsection \<open>The code after the loop\<close>

text \<open>
  Claim C7, as amended. The loop of \<open>_request\<close> ends without a \<open>return\<close> or a \<open>raise\<close>
  of its body, so that control reaches the code after it, exactly when the retry flag
  is true and \<open>max_retries\<close> is 0 or less. For every input with the retry flag false or
  \<open>max_retries\<close> at least 1 the code after the loop is unreachable.
\<close>

theorem fallback_reached_iff_no_budget:
  "(\<exists>l. fst (retry_loop c w meth endpoint body query retry) = Exhausted l)
     = (retry \<and> max_retries c \<le> 0)"
proof (cases "retry \<and> max_retries c \<le> 0")
  case True
  with request_no_budget [of retry c w meth endpoint body query] show ?thesis
    by auto
next
  case False
  let ?R = "if retry then max_retries c else 1"
  obtain s c' w1 where es: "ensure_session c w = (s, c', w1)"
    by (cases "ensure_session c w")
  obtain x w2 where lp:
    "request_loop s (build_request c meth endpoint body query) ?R 0 None w1 = (x, w2)"
    by (cases "request_loop s (build_request c meth endpoint body query) ?R 0 None w1")
  have "int 0 < ?R" using False by auto
  from loop_not_exhausted [OF this lp] have "\<forall>l. x \<noteq> Exhausted l" by blast
  moreover have "retry_loop c w meth endpoint body query retry = (x, c', w2)"
    using retry_loop_eq [OF es lp] .
  ultimately show ?thesis using False by simp
qed

theorem fallback_reached_iff_no_budget_witness:
  "fst (retry_loop panel (quiet (always (ClientFault ''connection reset'')))
          ''GET'' ''/nodes'' None None True) \<noteq> Exhausted None
   \<and> fst (retry_loop panel_no_budget (quiet (always (ClientFault ''connection reset'')))
          ''GET'' ''/nodes'' None None True) \<noteq> Returned (200, JObj [])"
proof -
  have "max_retries panel = 3" by (simp add: panel_def init_def)
  then have "\<not> (\<exists>l. fst (retry_loop panel (quiet (always (ClientFault ''connection reset'')))
          ''GET'' ''/nodes'' None None True) = Exhausted l)"
    using fallback_reached_iff_no_budget
      [of panel "quiet (always (ClientFault ''connection reset''))" "''GET''" "''/nodes''"
          None None True]
    by simp
  moreover have "max_retries panel_no_budget = 0" by (simp add: panel_no_budget_def init_def)
  then have "\<exists>l. fst (retry_loop panel_no_budget (quiet (always (ClientFault ''connection reset'')))
          ''GET'' ''/nodes'' None None True) = Exhausted l"
    using fallback_reached_iff_no_budget
      [of panel_no_budget "quiet (always (ClientFault ''connection reset''))" "''GET''"
          "''/nodes''" None None True]
    by simp
  ultimately show ?thesis by auto
qed

text \<open>
  Claim C7 as stated fails for a client built with \<open>max_retries = 0\<close>: the loop body
  never runs and the code after the loop raises its generic error.
\<close>

theorem fallback_reached_counterexample:
  "fst (retry_loop panel_no_budget (quiet (always (Response 200 (Decoded (JObj [])))))
          ''GET'' ''/admin'' None None True) = Exhausted None
   \<and> fst (request panel_no_budget (quiet (always (Response 200 (Decoded (JObj [])))))
          ''GET'' ''/admin'' None None True)
     = Inl (Veloce (VeloceError APIError (JStr ''Request failed after 0 attempts'') None None))"
  by code_simp

subsection \<open>Status codes that are not retried\<close>

text \<open>
  Claim C1, at a response the code mishandles. The panel answers 400 with a body that
  is valid JSON but not an object (here the empty array). The branch for 400 and 422
  calls \<open>response_data.get\<close>, which a list does not have; the \<open>AttributeError\<close> is
  caught by the last handler of the loop and leaves \<open>_request\<close> as the generic error,
  with no status code and no body, where the table asks for the validation error with
  the default message.
\<close>

theorem validation_status_with_array_body:
  "request_loop open_session admin_probe 3 0 None
       (quiet (always (Response 400 (Decoded (JArr [])))))
     = (Raised (Veloce (VeloceError APIError
          (JStr (''Request failed: '' @ quoted ''list'' @ '' object has no attribute ''
                   @ quoted ''get''))
          None None)),
        on_wire open_session admin_probe (quiet (always (Response 400 (Decoded (JArr []))))))
   \<and> fst (request panel (quiet (always (Response 400 (Decoded (JArr [])))))
            ''POST'' ''/user'' (Some (JObj [(''username'', JStr ''bob'')])) None True)
     = Inl (Veloce (VeloceError APIError
          (JStr (''Request failed: '' @ quoted ''list'' @ '' object has no attribute ''
                   @ quoted ''get''))
          None None))"
  by (simp add: request_def retry_loop_def ensure_session_def new_session_def panel_def
      init_def open_session_def quiet_def always_def request_loop.simps attempt_defs
      decoded_body_def py_get_def attribute_error_def py_type_name_def api_error_def
      str_exn_def)

text \<open>
  Claim C3, at a response the code mishandles (the same defect as for C1). The panel
  answers 422 with the JSON document \<open>null\<close>. The run does end at the first attempt,
  with one request sent and no sleep, also with the retry flag true; but what is raised
  is the generic error made from the \<open>AttributeError\<close>, not the validation error.
\<close>

theorem validation_status_with_null_body:
  "fst (request panel (quiet (always (Response 422 (Decoded JNull))))
          ''PUT'' ''/user/bob'' None None True)
     = Inl (Veloce (VeloceError APIError
          (JStr (''Request failed: '' @ quoted ''NoneType'' @ '' object has no attribute ''
                   @ quoted ''get''))
          None None))
   \<and> length (sent (snd (snd (request panel (quiet (always (Response 422 (Decoded JNull))))
                               ''PUT'' ''/user/bob'' None None True)))) = 1
   \<and> slept (snd (snd (request panel (quiet (always (Response 422 (Decoded JNull))))
                        ''PUT'' ''/user/bob'' None None True))) = []"
  by code_simp

subsection \<open>Transport faults\<close>




subsection \<open>Bodies that do not decode\<close>

text \<open>
  Claim C5. A response whose body fails to decode (wrong content type, or any other
  failure of the decoder) is treated exactly as the same response with the empty
  mapping as its body: replacing every such response of the network by its decoded
  form changes neither the result of \<open>_request\<close> nor the requests it sends nor its
  sleeps. In particular a 200 response with a body that does not decode makes
  \<open>_request\<close> return \<open>(200, {})\<close>.
\<close>

theorem decode_failure_is_empty_mapping:
  "request c (normalised w) meth endpoint body query retry =
     (case request c w meth endpoint body query retry of
        (res, c', w') \<Rightarrow> (res, c', normalised w'))
   \<and> ((retry \<longrightarrow> 1 \<le> max_retries c)
        \<and> (d = ContentTypeError \<or> d = DecodeFault m)
        \<and> respond w (length (sent w)) (build_request c meth endpoint body query)
            = Response 200 d
      \<longrightarrow> fst (request c w meth endpoint body query retry) = Inr (200, JObj []))"
proof -
  have "fst (request c w meth endpoint body query retry) = Inr (200, JObj [])"
    if "retry \<longrightarrow> 1 \<le> max_retries c" "d = ContentTypeError \<or> d = DecodeFault m"
      "respond w (length (sent w)) (build_request c meth endpoint body query) = Response 200 d"
  proof -
    from request_first_success [OF that(1) that(3)]
    have "fst (request c w meth endpoint body query retry) = Inr (200, decoded_body d)"
      by auto
    with that(2) show ?thesis by (auto simp: decoded_body_def)
  qed
  then show ?thesis using request_normalised by blast
qed

theorem decode_failure_is_empty_mapping_witness:
  "1 \<le> max_retries panel
   \<and> respond (quiet (always (Response 200 ContentTypeError)))
       (length (sent (quiet (always (Response 200 ContentTypeError)))))
       (build_request panel ''GET'' ''/system'' None None) = Response 200 ContentTypeError
   \<and> fst (request panel (quiet (always (Response 200 ContentTypeError)))
            ''GET'' ''/system'' None None True) = Inr (200, JObj [])"
proof -
  let ?W = "quiet (always (Response 200 ContentTypeError))"
  have h: "(True \<longrightarrow> 1 \<le> max_retries panel)
      \<and> (ContentTypeError = ContentTypeError \<or> ContentTypeError = DecodeFault [])
      \<and> respond ?W (length (sent ?W)) (build_request panel ''GET'' ''/system'' None None)
          = Response 200 ContentTypeError"
    by (simp add: panel_def init_def quiet_def always_def)
  from decode_failure_is_empty_mapping
    [of panel ?W "''GET''" "''/system''" None None True ContentTypeError "[]"] h
  have "fst (request panel ?W ''GET'' ''/system'' None None True) = Inr (200, JObj [])"
    by blast
  with h show ?thesis by simp
qed

subsection \<open>Headers\<close>

text \<open>
  Claim C9. Every request that \<open>_request\<close> puts on the wire, on every attempt, carries
  exactly the two headers \<open>X-API-Key\<close>, with the configured key, and \<open>Content-Type:
  application/json\<close> (the headers the client hands to the session).
\<close>

theorem every_attempt_carries_headers:
  "\<forall>a \<in> set (attempts_made w (snd (snd (request c w meth endpoint body query retry)))).
     headers (snd a) = [(''X-API-Key'', api_key c), (''Content-Type'', ''application/json'')]"
proof -
  let ?r = "build_request c meth endpoint body query"
  let ?R = "if retry then max_retries c else 1"
  obtain s c' w1 where es: "ensure_session c w = (s, c', w1)"
    by (cases "ensure_session c w")
  note op = ensure_session_open [OF es]
  obtain x w2 where lp: "request_loop s ?r ?R 0 None w1 = (x, w2)"
    by (cases "request_loop s ?r ?R 0 None w1")
  from loop_frame [OF _ lp] op obtain k where fr: "sent w2 = sent w @ replicate k (sid s, ?r)"
    by auto
  have "retry_loop c w meth endpoint body query retry = (x, c', w2)"
    using retry_loop_eq [OF es lp] .
  then have "snd (snd (request c w meth endpoint body query retry)) = w2"
    by (cases x) (simp_all add: request_def)
  with fr show ?thesis
    by (auto simp: attempts_made_def build_request_def get_headers_def)
qed

theorem every_attempt_carries_headers_witness:
  "length (attempts_made (quiet (always (Response 502 (Decoded (JObj [])))))
     (snd (snd (request panel (quiet (always (Response 502 (Decoded (JObj [])))))
                  ''DELETE'' ''/user/bob'' None None True)))) = 3
   \<and> headers (snd (attempts_made (quiet (always (Response 502 (Decoded (JObj [])))))
        (snd (snd (request panel (quiet (always (Response 502 (Decoded (JObj [])))))
                     ''DELETE'' ''/user/bob'' None None True))) ! 2))
       = [(''X-API-Key'', ''secret''), (''Content-Type'', ''application/json'')]"
proof -
  let ?W = "quiet (always (Response 502 (Decoded (JObj []))))"
  let ?as = "attempts_made ?W (snd (snd (request panel ?W ''DELETE'' ''/user/bob'' None None True)))"
  have len: "length ?as = 3" by code_simp
  then have "?as ! 2 \<in> set ?as" by simp
  with every_attempt_carries_headers [of ?W panel "''DELETE''" "''/user/bob''" None None True]
  have "headers (snd (?as ! 2))
      = [(''X-API-Key'', api_key panel), (''Content-Type'', ''application/json'')]"
    by blast
  with len show ?thesis by (simp add: panel_def init_def)
qed

subsection \<open>Health check\<close>








subsection \<open>Closing the session\<close>

lemma close_twice_frame:
  assumes "close_twice c w = (c2, w2)"
  shows "base_url c2 = base_url c \<and> api_key c2 = api_key c \<and> timeout c2 = timeout c
    \<and> max_retries c2 = max_retries c \<and> respond w2 = respond w \<and> sent w2 = sent w
    \<and> slept w2 = slept w \<and> created w2 = created w"
  using assms by (auto simp: close_twice_def close_def split: option.splits if_splits)

lemma close_twice_no_live_session:
  assumes "close_twice c w = (c2, w2)" "session c = None \<or> owns_session c"
  shows "session c2 = None \<or> (\<exists>s. session c2 = Some s \<and> closed s)"
  using assms by (auto simp: close_twice_def close_def split: option.splits if_splits)

lemma request_fresh_session:
  assumes "session c = None \<or> (\<exists>s. session c = Some s \<and> closed s)"
  shows "\<exists>res c' w'. request c w meth endpoint body query retry = (res, c', w')
      \<and> session c' = Some \<lparr> sid = created w, session_timeout = timeout c, closed = False \<rparr>
      \<and> created w' = Suc (created w)
      \<and> (\<forall>a \<in> set (attempts_made w w'). fst a = created w)
      \<and> ((retry \<longrightarrow> 1 \<le> max_retries c) \<longrightarrow> attempts_made w w' \<noteq> [])"
proof -
  let ?r = "build_request c meth endpoint body query"
  let ?R = "if retry then max_retries c else 1"
  let ?s = "\<lparr> sid = created w, session_timeout = timeout c, closed = False \<rparr>"
  let ?c = "c\<lparr> session := Some ?s, owns_session := True \<rparr>"
  let ?w = "w\<lparr> created := Suc (created w) \<rparr>"
  have es: "ensure_session c w = (?s, ?c, ?w)"
    using assms by (auto simp: ensure_session_def new_session_def)
  obtain x w2 where lp: "request_loop ?s ?r ?R 0 None ?w = (x, w2)"
    by (cases "request_loop ?s ?r ?R 0 None ?w")
  from loop_frame [OF _ lp] obtain k where fr: "sent w2 = sent w @ replicate k (created w, ?r)"
    "created w2 = Suc (created w)" by auto
  have rl: "retry_loop c w meth endpoint body query retry = (x, ?c, w2)"
    using retry_loop_eq [OF es lp] .
  then obtain res where rq: "request c w meth endpoint body query retry = (res, ?c, w2)"
    by (cases x) (auto simp: request_def)
  have ne: "attempts_made w w2 \<noteq> []" if "retry \<longrightarrow> 1 \<le> max_retries c"
  proof -
    have lt: "int 0 < ?R" using that by auto
    obtain st w1 where step: "attempt_once ?s ?r ?R 0 ?w = (st, w1)"
      by (cases "attempt_once ?s ?r ?R 0 ?w")
    from attempt_once_frame [OF _ step] have s1: "sent w1 = sent w @ [(created w, ?r)]" by simp
    have "\<exists>k. sent w2 = sent w1 @ replicate k (created w, ?r)"
    proof (cases st)
      case (Continue e)
      then have "request_loop ?s ?r ?R (Suc 0) (Some e) w1 = (x, w2)"
        using lp step lt by (simp add: request_loop.simps [of ?s ?r ?R 0])
      from loop_frame [OF _ this] show ?thesis by simp
    next
      case (Return res)
      then have "w2 = w1" using lp step lt by (simp add: request_loop.simps [of ?s ?r ?R 0])
      then show ?thesis by (auto intro: exI [of _ 0])
    next
      case (Raise e)
      then have "w2 = w1" using lp step lt by (simp add: request_loop.simps [of ?s ?r ?R 0])
      then show ?thesis by (auto intro: exI [of _ 0])
    qed
    with s1 show ?thesis by (auto simp: attempts_made_def)
  qed
  have "\<forall>a \<in> set (attempts_made w w2). fst a = created w"
    using fr by (auto simp: attempts_made_def)
  with rq fr ne show ?thesis by simp
qed

text \<open>
  Claim C8. \<open>close()\<close> is idempotent in every state of the client: a second call in
  succession changes nothing more. When no session exists it changes nothing at all,
  so the stored reference stays absent. When the client holds an open session it owns,
  the first call shuts that session down (once) and drops the reference, and the second
  call finds no session. A request issued after the two calls, by a client that owns
  its session or has none, makes a new session through \<open>_ensure_session\<close>, stores it,
  sends every attempt on it and goes on as usual: with a retry budget it puts a request
  on the wire, and a 2xx or 3xx answer to the first attempt is returned.
\<close>

theorem close_idempotent_then_fresh_session:
  "close_twice c w = close c w
   \<and> (session c = None \<longrightarrow> close c w = (c, w) \<and> session (fst (close_twice c w)) = None)
   \<and> (session c = Some s \<and> \<not> closed s \<and> owns_session c \<longrightarrow>
        close c w = (c\<lparr> session := None \<rparr>, w\<lparr> closings := closings w @ [sid s] \<rparr>)
      \<and> close_twice c w = (c\<lparr> session := None \<rparr>, w\<lparr> closings := closings w @ [sid s] \<rparr>))
   \<and> (session c = None \<or> owns_session c \<longrightarrow>
        (\<exists>res c' w'.
           (case close_twice c w of
              (c2, w2) \<Rightarrow> request c2 w2 meth endpoint body query retry) = (res, c', w')
         \<and> session c' = Some \<lparr> sid = created w, session_timeout = timeout c, closed = False \<rparr>
         \<and> created w' = Suc (created w)
         \<and> (\<forall>a \<in> set (attempts_made w w'). fst a = created w)
         \<and> ((retry \<longrightarrow> 1 \<le> max_retries c) \<longrightarrow> attempts_made w w' \<noteq> [])
         \<and> (\<forall>st b. (retry \<longrightarrow> 1 \<le> max_retries c)
                \<and> respond w (length (sent w)) (build_request c meth endpoint body query)
                    = Response st (Decoded b)
                \<and> 200 \<le> st \<and> st < 400
              \<longrightarrow> res = Inr (st, b))))"
proof -
  have idem: "close_twice c w = close c w"
    by (auto simp: close_twice_def close_def split: option.splits)
  have absent: "close c w = (c, w) \<and> session (fst (close_twice c w)) = None"
    if "session c = None"
    using that by (simp add: close_twice_def close_def)
  have drops: "close c w = (c\<lparr> session := None \<rparr>, w\<lparr> closings := closings w @ [sid s] \<rparr>)
      \<and> close_twice c w = (c\<lparr> session := None \<rparr>, w\<lparr> closings := closings w @ [sid s] \<rparr>)"
    if "session c = Some s \<and> \<not> closed s \<and> owns_session c"
    using that by (simp add: close_twice_def close_def)
  have fresh: "\<exists>res c' w'.
           (case close_twice c w of
              (c2, w2) \<Rightarrow> request c2 w2 meth endpoint body query retry) = (res, c', w')
         \<and> session c' = Some \<lparr> sid = created w, session_timeout = timeout c, closed = False \<rparr>
         \<and> created w' = Suc (created w)
         \<and> (\<forall>a \<in> set (attempts_made w w'). fst a = created w)
         \<and> ((retry \<longrightarrow> 1 \<le> max_retries c) \<longrightarrow> attempts_made w w' \<noteq> [])
         \<and> (\<forall>st b. (retry \<longrightarrow> 1 \<le> max_retries c)
                \<and> respond w (length (sent w)) (build_request c meth endpoint body query)
                    = Response st (Decoded b)
                \<and> 200 \<le> st \<and> st < 400
              \<longrightarrow> res = Inr (st, b))"
    if own: "session c = None \<or> owns_session c"
  proof -
    obtain c2 w2 where ct: "close_twice c w = (c2, w2)"
      by (cases "close_twice c w")
    note fr = close_twice_frame [OF ct]
    have br: "build_request c2 meth endpoint body query = build_request c meth endpoint body query"
      using fr by (simp add: build_request_def get_headers_def)
    have am: "attempts_made w2 w' = attempts_made w w'" for w'
      using fr by (simp add: attempts_made_def)
    from request_fresh_session [OF close_twice_no_live_session [OF ct own],
        of w2 meth endpoint body query retry]
    obtain res c' w' where rq: "request c2 w2 meth endpoint body query retry = (res, c', w')"
      and rest: "session c' = Some \<lparr> sid = created w, session_timeout = timeout c, closed = False \<rparr>"
        "created w' = Suc (created w)"
        "\<forall>a \<in> set (attempts_made w w'). fst a = created w"
        "(retry \<longrightarrow> 1 \<le> max_retries c) \<longrightarrow> attempts_made w w' \<noteq> []"
      unfolding am using fr by auto
    have "res = Inr (st, b)"
      if "retry \<longrightarrow> 1 \<le> max_retries c"
        "respond w (length (sent w)) (build_request c meth endpoint body query)
           = Response st (Decoded b)" "200 \<le> st" "st < 400" for st b
    proof -
      have b2: "retry \<longrightarrow> 1 \<le> max_retries c2" using that(1) fr by simp
      have r2: "respond w2 (length (sent w2)) (build_request c2 meth endpoint body query)
          = Response st (Decoded b)"
        using that(2) fr br by simp
      from request_first_success [OF b2 r2] that(3,4)
      have "fst (request c2 w2 meth endpoint body query retry)
          = Inr (st, decoded_body (Decoded b))"
        by auto
      with rq show ?thesis by (simp add: decoded_body_def)
    qed
    with rq rest ct show ?thesis by auto
  qed
  from idem absent drops fresh show ?thesis by blast
qed

theorem close_idempotent_then_fresh_session_witness:
  "session panel_in_use = Some open_session
   \<and> \<not> closed open_session \<and> owns_session panel_in_use
   \<and> session (fst (close panel_in_use
        (after_one_session (always (Response 200 (Decoded (JObj [(''a'', JNum 1)]))))))) = None
   \<and> closings (snd (close_twice panel_in_use
        (after_one_session (always (Response 200 (Decoded (JObj [(''a'', JNum 1)]))))))) = [0]
   \<and> fst (case close_twice panel_in_use
              (after_one_session (always (Response 200 (Decoded (JObj [(''a'', JNum 1)])))))
          of (c2, w2) \<Rightarrow> request c2 w2 ''GET'' ''/users'' None None True)
       = Inr (200, JObj [(''a'', JNum 1)])
   \<and> session (fst (snd (case close_twice panel_in_use
          (after_one_session (always (Response 200 (Decoded (JObj [(''a'', JNum 1)])))))
          of (c2, w2) \<Rightarrow> request c2 w2 ''GET'' ''/users'' None None True)))
       = Some \<lparr> sid = 1, session_timeout = 30, closed = False \<rparr>"
proof -
  let ?W = "after_one_session (always (Response 200 (Decoded (JObj [(''a'', JNum 1)]))))"
  have st: "session panel_in_use = Some open_session \<and> \<not> closed open_session
      \<and> owns_session panel_in_use"
    by (simp add: panel_in_use_def panel_def init_def open_session_def)
  note t = close_idempotent_then_fresh_session
    [of panel_in_use ?W open_session "''GET''" "''/users''" None None True]
  from t st have cl:
    "close panel_in_use ?W =
       (panel_in_use\<lparr> session := None \<rparr>, ?W\<lparr> closings := closings ?W @ [sid open_session] \<rparr>)"
    "close_twice panel_in_use ?W =
       (panel_in_use\<lparr> session := None \<rparr>, ?W\<lparr> closings := closings ?W @ [sid open_session] \<rparr>)"
    by blast+
  from t st obtain res c' w' where
    rq: "(case close_twice panel_in_use ?W of
            (c2, w2) \<Rightarrow> request c2 w2 ''GET'' ''/users'' None None True) = (res, c', w')"
    and se: "session c' =
       Some \<lparr> sid = created ?W, session_timeout = timeout panel_in_use, closed = False \<rparr>"
    and ok: "\<forall>st b. (True \<longrightarrow> 1 \<le> max_retries panel_in_use)
                \<and> respond ?W (length (sent ?W))
                     (build_request panel_in_use ''GET'' ''/users'' None None)
                    = Response st (Decoded b)
                \<and> 200 \<le> st \<and> st < 400
              \<longrightarrow> res = Inr (st, b)"
    by blast
  have "(True \<longrightarrow> 1 \<le> max_retries panel_in_use)
      \<and> respond ?W (length (sent ?W)) (build_request panel_in_use ''GET'' ''/users'' None None)
          = Response 200 (Decoded (JObj [(''a'', JNum 1)]))
      \<and> (200::int) \<le> 200 \<and> (200::int) < 400"
    by (simp add: panel_in_use_def panel_def init_def after_one_session_def quiet_def always_def)
  with ok have "res = Inr (200, JObj [(''a'', JNum 1)])" by blast
  moreover have "created ?W = 1" "timeout panel_in_use = 30" "closings ?W = []"
      "sid open_session = 0"
    by (simp_all add: after_one_session_def quiet_def panel_in_use_def panel_def init_def
        open_session_def)
  ultimately show ?thesis using st cl rq se by simp
qed

end
